theory Spec2Isabelle
  imports Main "HOL-Library.Word" "HOL-Library.Sublist"
begin

section \<open>JavaScript strings and the built-ins the dashboard uses\<close>

text \<open>
  The admin dashboard (\<^verbatim>\<open>src/frontend/js/app.js\<close>) works on JavaScript strings, which are
  finite sequences of 16-bit code units. String literals of the source that are plain ASCII
  are written with \<open>js\<close>; other code units are given by number.
\<close>

type_synonym code_unit = "16 word"
type_synonym js_string = "code_unit list"

definition js :: "string \<Rightarrow> js_string" where
  "js s = map (\<lambda>c. word_of_nat (of_char c)) s"

text \<open>
  \<^verbatim>\<open>String.prototype.trim\<close> removes the code units of WhiteSpace and LineTerminator
  (ECMAScript: TAB, LF, VT, FF, CR, SP, NBSP, U+1680, U+2000..U+200A, LS, PS, U+202F,
  U+205F, U+3000, ZWNBSP) from both ends.
\<close>

definition isWhiteSpace :: "code_unit \<Rightarrow> bool" where
  "isWhiteSpace c \<longleftrightarrow>
     c = 0x0009 \<or> c = 0x000A \<or> c = 0x000B \<or> c = 0x000C \<or> c = 0x000D \<or> c = 0x0020 \<or>
     c = 0x00A0 \<or> c = 0x1680 \<or> (0x2000 \<le> c \<and> c \<le> 0x200A) \<or> c = 0x2028 \<or>
     c = 0x2029 \<or> c = 0x202F \<or> c = 0x205F \<or> c = 0x3000 \<or> c = 0xFEFF"

definition trim :: "js_string \<Rightarrow> js_string" where
  "trim s = rev (dropWhile isWhiteSpace (rev (dropWhile isWhiteSpace s)))"

text \<open>
  \<^verbatim>\<open>s.split(',')\<close> with a one-unit separator: the pieces between the separators, in order;
  a string without separator (also the empty string) gives one piece. A unit that is not
  the separator joins the first piece of the rest (the rest always has one).
\<close>

fun split :: "code_unit \<Rightarrow> js_string \<Rightarrow> js_string list" where
  "split sep [] = [[]]"
| "split sep (c # cs) =
     (if c = sep then [] # split sep cs
      else (case split sep cs of [] \<Rightarrow> [[c]] | p # ps \<Rightarrow> (c # p) # ps))"

text \<open>
  \<^verbatim>\<open>s.indexOf(pat)\<close>: the position of the leftmost occurrence, \<open>None\<close> for \<open>-1\<close>.
  \<^verbatim>\<open>s.replace(pat, rep)\<close> with a string pattern replaces that leftmost occurrence only
  (the replacement strings of the source contain no \<^verbatim>\<open>$\<close>).
\<close>

fun indexOf :: "'a list \<Rightarrow> 'a list \<Rightarrow> nat option" where
  "indexOf [] pat = (if pat = [] then Some 0 else None)"
| "indexOf (x # xs) pat =
     (if prefix pat (x # xs) then Some 0 else map_option Suc (indexOf xs pat))"

definition replace :: "'a list \<Rightarrow> 'a list \<Rightarrow> 'a list \<Rightarrow> 'a list" where
  "replace s pat rep =
     (case indexOf s pat of
        None \<Rightarrow> s
      | Some i \<Rightarrow> take i s @ rep @ drop (i + length pat) s)"

text \<open>
  Numbers in a template literal: an integer below \<open>10\<^sup>2\<^sup>1\<close> in magnitude is printed in
  decimal, with a minus sign when negative.
\<close>

definition digit_unit :: "nat \<Rightarrow> code_unit" where
  "digit_unit d = word_of_nat (48 + d)"

fun decimal_nat :: "nat \<Rightarrow> js_string" where
  "decimal_nat n =
     (if n < 10 then [digit_unit n] else decimal_nat (n div 10) @ [digit_unit (n mod 10)])"

declare decimal_nat.simps [simp del]

definition decimal :: "int \<Rightarrow> js_string" where
  "decimal i = (if i < 0 then js ''-'' @ decimal_nat (nat (- i)) else decimal_nat (nat i))"

text \<open>
  \<^verbatim>\<open>parseInt(s)\<close> without radix: leading white space is skipped, a sign is read, a prefix
  \<^verbatim>\<open>0x\<close> or \<^verbatim>\<open>0X\<close> selects radix 16, and the longest run of digits is the value.
  The result is a JavaScript Number, a double: \<^verbatim>\<open>NaN\<close> when there is no digit, the
  integer itself when its magnitude is at most \<open>2\<^sup>5\<^sup>3\<close> (every such integer is a
  double), and otherwise a rounded double or \<^verbatim>\<open>Infinity\<close>, which is not the integer
  read and is kept apart as \<open>Inexact\<close>.
\<close>

datatype js_number = NaN | Exact int | Inexact



section \<open>Saving the database configuration\<close>


record db_config =
  enabled :: bool
  db_type :: js_string
  host :: js_string
  port :: js_number
  database :: js_string
  username :: js_string
  schema_name :: js_string
  password :: js_string
  allowed_tables :: "js_string list"
  allowed_columns :: "js_string \<rightharpoonup> js_string list"
  max_rows :: int
  timeout_seconds :: int








section \<open>The test chat\<close>

text \<open>
  \<^verbatim>\<open>openChatModal(tenantId)\<close> looks the tenant up in the loaded list and returns at once
  when it is not there. Otherwise it sets the active tenant and a new session id:
  \<^verbatim>\<open>crypto.randomUUID()\<close> where the platform has it, else
  \<^verbatim>\<open>sess_<Date.now()>_<Math.random().toString(16).slice(2)>\<close>. What the platform
  returns for one call is a \<open>draw\<close>: the UUID (\<open>None\<close> when \<^verbatim>\<open>crypto.randomUUID\<close> is
  missing), the clock in milliseconds and the hexadecimal text of the random number.
\<close>

record tenant =
  tenant_id :: js_string
  tenant_name :: js_string

record draw =
  randomUUID :: "js_string option"
  date_now :: int
  random_hex :: js_string

datatype chat_message = Message js_string js_string

record chat =
  chatActiveTenantId :: "js_string option"
  chatSessionId :: "js_string option"
  chat_modal_hidden :: bool
  chat_modal_title :: js_string
  chat_history :: "chat_message list"

definition new_session_id :: "draw \<Rightarrow> js_string" where
  "new_session_id d =
     (case randomUUID d of
        Some u \<Rightarrow> u
      | None \<Rightarrow> js ''sess_'' @ decimal (date_now d) @ js ''_'' @ drop 2 (random_hex d))"

definition connected_to :: "js_string \<Rightarrow> js_string" where
  "connected_to name =
     js ''Connesso a <strong>'' @ name @ js ''</strong>. Il server cercher'' @ [0x00E0] @
     js '' automaticamente tra database e documenti.''"

definition openChatModal :: "tenant list \<Rightarrow> draw \<Rightarrow> js_string \<Rightarrow> chat \<Rightarrow> chat" where
  "openChatModal tenants d tenantId st =
     (case find (\<lambda>t. tenant_id t = tenantId) tenants of
        None \<Rightarrow> st
      | Some t \<Rightarrow> st \<lparr>
          chatActiveTenantId := Some tenantId,
          chatSessionId := Some (new_session_id d),
          chat_modal_title := js ''Test Chat: '' @ tenant_name t,
          chat_modal_hidden := False,
          chat_history := [Message (js ''system'') (connected_to (tenant_name t))] \<rparr>)"

text \<open>
  A run of the page: the chat is opened several times, each time for a tenant id and with
  the platform's draw for that call; the session id in force after each opening is recorded.
\<close>

fun openings :: "tenant list \<Rightarrow> chat \<Rightarrow> (js_string \<times> draw) list \<Rightarrow> js_string option list" where
  "openings tenants st [] = []"
| "openings tenants st ((tenantId, d) # rest) =
     (let st' = openChatModal tenants d tenantId st
      in chatSessionId st' # openings tenants st' rest)"

text \<open>
  The streaming branch of \<^verbatim>\<open>sendChatMessage\<close>: every decoded chunk is appended to
  \<^verbatim>\<open>fullContent\<close>, and the paragraph of the answer bubble is set to
  \<^verbatim>\<open>fullContent.replace('[[DIRECT_DISPLAY]]', '')\<close>. The bubble starts empty.
\<close>

definition DIRECT_DISPLAY :: js_string where
  "DIRECT_DISPLAY = js ''[[DIRECT_DISPLAY]]''"

record answer_bubble =
  fullContent :: js_string
  textContent :: js_string

definition on_chunk :: "answer_bubble \<Rightarrow> js_string \<Rightarrow> answer_bubble" where
  "on_chunk b chunk =
     (let fc = fullContent b @ chunk
      in \<lparr> fullContent = fc, textContent = replace fc DIRECT_DISPLAY [] \<rparr>)"

definition read_stream :: "js_string list \<Rightarrow> answer_bubble" where
  "read_stream chunks = foldl on_chunk \<lparr> fullContent = [], textContent = [] \<rparr> chunks"

section \<open>Properties of the streamed display\<close>

text \<open>
  \<open>indexOf\<close> finds an occurrence exactly when there is one, and it finds the leftmost: an
  occurrence at \<open>pre\<close> is the leftmost when the pattern does not occur in \<open>pre\<close> followed
  by all but the last unit of the pattern.
\<close>

lemma indexOf_None_iff: "indexOf s pat = None \<longleftrightarrow> \<not> sublist pat s"
  by (induction s) (auto simp: sublist_Cons_right)

lemma indexOf_leftmost:
  "\<not> sublist pat (pre @ butlast pat) \<Longrightarrow> indexOf (pre @ pat @ post) pat = Some (length pre)"
proof (induction pre)
  case Nil
  then have "pat \<noteq> []" by auto
  then obtain x xs where "pat @ post = x # xs" by (cases pat) auto
  moreover have "prefix pat (pat @ post)" by simp
  ultimately show ?case by simp
next
  case (Cons a pre)
  have pat: "pat \<noteq> []" using Cons.prems by auto
  have "\<not> prefix pat (a # pre @ pat @ post)"
  proof
    assume "prefix pat (a # pre @ pat @ post)"
    then have "prefix pat (((a # pre) @ butlast pat) @ (last pat # post))"
      using pat by (metis append.assoc append_Cons append_butlast_last_id append_Nil)
    moreover have "length pat \<le> length ((a # pre) @ butlast pat)" by simp
    ultimately have "prefix pat ((a # pre) @ butlast pat)"
      by (metis prefix_length_prefix prefixI)
    then show False using Cons.prems by (auto simp: sublist_altdef' intro: exI[of _ "(a # pre) @ butlast pat"])
  qed
  moreover have "\<not> sublist pat (pre @ butlast pat)"
    using Cons.prems by (auto simp: sublist_Cons_right)
  ultimately show ?case using Cons.IH by simp
qed

lemma replace_no_occurrence: "\<not> sublist pat s \<Longrightarrow> replace s pat rep = s"
  using indexOf_None_iff[of s pat] by (simp add: replace_def)

lemma replace_leftmost:
  "\<not> sublist pat (pre @ butlast pat) \<Longrightarrow> replace (pre @ pat @ post) pat rep = pre @ rep @ post"
  by (simp add: replace_def indexOf_leftmost)

lemma foldl_on_chunk_fullContent:
  "fullContent (foldl on_chunk b chunks) = fullContent b @ concat chunks"
  by (induction chunks arbitrary: b) (simp_all add: on_chunk_def Let_def)

lemma foldl_on_chunk_textContent:
  "textContent b = replace (fullContent b) DIRECT_DISPLAY [] \<Longrightarrow>
   textContent (foldl on_chunk b chunks) = replace (fullContent b @ concat chunks) DIRECT_DISPLAY []"
  by (induction chunks arbitrary: b) (simp_all add: on_chunk_def Let_def)

lemma DIRECT_DISPLAY_nonempty: "DIRECT_DISPLAY \<noteq> []"
  by (simp add: DIRECT_DISPLAY_def js_def)

lemma read_stream_textContent:
  "textContent (read_stream chunks) = replace (concat chunks) DIRECT_DISPLAY []"
proof -
  have "replace [] DIRECT_DISPLAY [] = ([] :: js_string)"
    using DIRECT_DISPLAY_nonempty by (simp add: replace_def)
  then show ?thesis
    unfolding read_stream_def using foldl_on_chunk_textContent[of "\<lparr> fullContent = [], textContent = [] \<rparr>" chunks]
    by simp
qed

text \<open>
  Claim C8, as the code has it. After the chunks read so far, \<^verbatim>\<open>fullContent\<close> is their
  concatenation, and the rendered text is that concatenation with its leftmost occurrence
  of the marker \<^verbatim>\<open>[[DIRECT_DISPLAY]]\<close> removed: a text without the marker is rendered as
  it is, and a text \<open>pre @ marker @ post\<close> whose leftmost marker is the one shown is
  rendered as \<open>pre @ post\<close>.
\<close>

theorem stream_display_removes_first_marker:
  "fullContent (read_stream chunks) = concat chunks \<and>
   (\<not> sublist DIRECT_DISPLAY (concat chunks) \<longrightarrow>
      textContent (read_stream chunks) = concat chunks) \<and>
   (\<forall>pre post. concat chunks = pre @ DIRECT_DISPLAY @ post \<and>
        \<not> sublist DIRECT_DISPLAY (pre @ butlast DIRECT_DISPLAY) \<longrightarrow>
      textContent (read_stream chunks) = pre @ post)"
proof (intro conjI impI allI)
  show "fullContent (read_stream chunks) = concat chunks"
    by (simp add: read_stream_def foldl_on_chunk_fullContent)
next
  assume "\<not> sublist DIRECT_DISPLAY (concat chunks)"
  then show "textContent (read_stream chunks) = concat chunks"
    by (simp add: read_stream_textContent replace_no_occurrence)
next
  fix pre post
  assume "concat chunks = pre @ DIRECT_DISPLAY @ post \<and>
    \<not> sublist DIRECT_DISPLAY (pre @ butlast DIRECT_DISPLAY)"
  then show "textContent (read_stream chunks) = pre @ post"
    using replace_leftmost[of DIRECT_DISPLAY pre post "[]"]
    by (simp add: read_stream_textContent)
qed

text \<open>
  The theorem at two streams: one without the marker, and one whose marker arrives split
  over two chunks.
\<close>

theorem stream_display_removes_first_marker_witness:
  "concat [js ''ab[[DIRECT'', js ''_DISPLAY]]cd''] = js ''ab'' @ DIRECT_DISPLAY @ js ''cd'' \<and>
   \<not> sublist DIRECT_DISPLAY (js ''ab'' @ butlast DIRECT_DISPLAY) \<and>
   \<not> sublist DIRECT_DISPLAY (concat [js ''hello'']) \<and>
   textContent (read_stream [js ''hello'']) = js ''hello'' \<and>
   textContent (read_stream [js ''ab[[DIRECT'', js ''_DISPLAY]]cd'']) = js ''abcd''"
proof -
  have a: "concat [js ''ab[[DIRECT'', js ''_DISPLAY]]cd''] = js ''ab'' @ DIRECT_DISPLAY @ js ''cd''"
    by (simp add: js_def DIRECT_DISPLAY_def)
  have b: "\<not> sublist DIRECT_DISPLAY (js ''ab'' @ butlast DIRECT_DISPLAY)"
    by (simp add: js_def DIRECT_DISPLAY_def sublist_code)
  have c: "\<not> sublist DIRECT_DISPLAY (concat [js ''hello''])"
    by (simp add: js_def DIRECT_DISPLAY_def sublist_code)
  have d: "textContent (read_stream [js ''hello'']) = concat [js ''hello'']"
    using stream_display_removes_first_marker[of "[js ''hello'']"] c by blast
  have e: "textContent (read_stream [js ''ab[[DIRECT'', js ''_DISPLAY]]cd'']) = js ''ab'' @ js ''cd''"
    using stream_display_removes_first_marker[of "[js ''ab[[DIRECT'', js ''_DISPLAY]]cd'']"] a b by blast
  show ?thesis using a b c d e by (simp add: js_def)
qed

text \<open>
  Claim C8 as stated (the rendered text never contains the marker) fails when the marker
  is streamed twice: only the first occurrence is removed.
\<close>

theorem rendered_text_may_contain_marker_counterexample:
  "sublist DIRECT_DISPLAY
     (textContent (read_stream [js ''[[DIRECT_DISPLAY]]Totale: 3 '', js ''[[DIRECT_DISPLAY]]'']))"
  by (simp add: read_stream_def on_chunk_def replace_def DIRECT_DISPLAY_def js_def sublist_code)

section \<open>Properties of the submitted database configuration\<close>








lemma trim_decompose:
  "\<exists>l r. s = l @ trim s @ r \<and> (\<forall>c \<in> set l. isWhiteSpace c) \<and> (\<forall>c \<in> set r. isWhiteSpace c)"
proof -
  let ?d = "dropWhile isWhiteSpace s"
  let ?l = "takeWhile isWhiteSpace s"
  let ?r = "rev (takeWhile isWhiteSpace (rev ?d))"
  have "rev ?d = takeWhile isWhiteSpace (rev ?d) @ dropWhile isWhiteSpace (rev ?d)" by simp
  then have "?d = trim s @ ?r" unfolding trim_def by (metis rev_append rev_rev_ident)
  then have "s = ?l @ trim s @ ?r" by (metis takeWhile_dropWhile_id)
  moreover have "\<forall>c \<in> set ?l. isWhiteSpace c" by (auto dest: set_takeWhileD)
  moreover have "\<forall>c \<in> set ?r. isWhiteSpace c" by (auto dest: set_takeWhileD)
  ultimately show ?thesis by blast
qed




section \<open>Properties of the session id\<close>

text \<open>
  The decimal text of an integer consists of digits after an optional minus sign, and
  determines the integer.
\<close>

lemma digit_unit_unat: "d < 10 \<Longrightarrow> unat (digit_unit d) = 48 + d"
  unfolding digit_unit_def by (subst unat_of_nat) simp

lemma digit_unit_inj: "a < 10 \<Longrightarrow> b < 10 \<Longrightarrow> digit_unit a = digit_unit b \<Longrightarrow> a = b"
proof -
  assume a: "a < 10" and b: "b < 10" and e: "digit_unit a = digit_unit b"
  from e have "unat (digit_unit a) = unat (digit_unit b)" by (rule arg_cong)
  then have "48 + a = 48 + b" by (simp only: digit_unit_unat[OF a] digit_unit_unat[OF b])
  then show "a = b" by simp
qed

lemma digit_unit_range: "d < 10 \<Longrightarrow> 0x30 \<le> digit_unit d \<and> digit_unit d \<le> 0x39"
  by (simp add: word_le_nat_alt digit_unit_unat)

lemma decimal_nat_nonempty: "decimal_nat n \<noteq> []"
  by (subst decimal_nat.simps) simp

lemma decimal_nat_digits: "c \<in> set (decimal_nat n) \<Longrightarrow> 0x30 \<le> c \<and> c \<le> 0x39"
proof (induction n arbitrary: c rule: decimal_nat.induct)
  case (1 n)
  show ?case
  proof (cases "n < 10")
    case True
    with 1(2) have "c = digit_unit n" by (subst (asm) decimal_nat.simps) simp
    with True show ?thesis using digit_unit_range by blast
  next
    case False
    with 1(2) have "c \<in> set (decimal_nat (n div 10)) \<or> c = digit_unit (n mod 10)"
      by (subst (asm) decimal_nat.simps) auto
    then show ?thesis using 1(1)[OF False] digit_unit_range[of "n mod 10"] by auto
  qed
qed

lemma decimal_nat_inj: "decimal_nat n = decimal_nat m \<Longrightarrow> n = m"
proof (induction n arbitrary: m rule: decimal_nat.induct)
  case (1 n)
  show ?case
  proof (cases "n < 10")
    case n: True
    show ?thesis
    proof (cases "m < 10")
      case True
      with n 1(2) show ?thesis
        by (subst (asm) decimal_nat.simps, subst (asm) (2) decimal_nat.simps)
           (simp add: digit_unit_inj)
    next
      case False
      then have "length (decimal_nat m) \<ge> 2"
        using decimal_nat_nonempty[of "m div 10"]
        by (subst decimal_nat.simps) (cases "decimal_nat (m div 10)"; simp)
      moreover have "length (decimal_nat n) = 1" using n by (subst decimal_nat.simps) simp
      ultimately show ?thesis using 1(2) by simp
    qed
  next
    case n: False
    show ?thesis
    proof (cases "m < 10")
      case True
      have "length (decimal_nat n) \<ge> 2"
        using n decimal_nat_nonempty[of "n div 10"]
        by (subst decimal_nat.simps) (cases "decimal_nat (n div 10)"; simp)
      moreover have "length (decimal_nat m) = 1" using True by (subst decimal_nat.simps) simp
      ultimately show ?thesis using 1(2) by simp
    next
      case False
      have en: "decimal_nat n = decimal_nat (n div 10) @ [digit_unit (n mod 10)]"
        using n by (subst decimal_nat.simps) simp
      have em: "decimal_nat m = decimal_nat (m div 10) @ [digit_unit (m mod 10)]"
        using False by (subst decimal_nat.simps) simp
      from en em 1(2) have "decimal_nat (n div 10) = decimal_nat (m div 10)"
        and d: "digit_unit (n mod 10) = digit_unit (m mod 10)" by simp_all
      then have "n div 10 = m div 10" using 1(1)[OF n] by simp
      moreover have "n mod 10 = m mod 10" using d by (simp add: digit_unit_inj)
      ultimately show ?thesis by (metis div_mult_mod_eq)
    qed
  qed
qed

lemma decimal_inj: "decimal i = decimal j \<Longrightarrow> i = j"
proof -
  assume e: "decimal i = decimal j"
  have minus: "\<And>n. hd (decimal_nat n) \<noteq> 0x2D"
  proof -
    fix n
    have "hd (decimal_nat n) \<in> set (decimal_nat n)" using decimal_nat_nonempty by simp
    then have "0x30 \<le> hd (decimal_nat n)" using decimal_nat_digits by blast
    then show "hd (decimal_nat n) \<noteq> 0x2D" by auto
  qed
  show "i = j"
  proof (cases "i < 0"; cases "j < 0")
    assume "i < 0" "j < 0"
    with e have "decimal_nat (nat (- i)) = decimal_nat (nat (- j))" by (simp add: decimal_def)
    then have "nat (- i) = nat (- j)" by (rule decimal_nat_inj)
    with \<open>i < 0\<close> \<open>j < 0\<close> show ?thesis by simp
  next
    assume "i < 0" "\<not> j < 0"
    with e have "hd (decimal_nat (nat j)) = 0x2D" by (simp add: decimal_def js_def) (metis list.sel(1))
    with minus show ?thesis by blast
  next
    assume "\<not> i < 0" "j < 0"
    with e have "hd (decimal_nat (nat i)) = 0x2D" by (simp add: decimal_def js_def)
    with minus show ?thesis by blast
  next
    assume "\<not> i < 0" "\<not> j < 0"
    with e have "decimal_nat (nat i) = decimal_nat (nat j)" by (simp add: decimal_def)
    then have "nat i = nat j" by (rule decimal_nat_inj)
    with \<open>\<not> i < 0\<close> \<open>\<not> j < 0\<close> show ?thesis by simp
  qed
qed

lemma decimal_no_underscore: "0x5F \<notin> set (decimal i)"
proof
  assume a: "0x5F \<in> set (decimal i)"
  have "\<And>n. (0x5F :: code_unit) \<notin> set (decimal_nat n)"
  proof
    fix n assume "(0x5F :: code_unit) \<in> set (decimal_nat n)"
    then have "(0x5F :: code_unit) \<le> 0x39" using decimal_nat_digits by blast
    then show False by simp
  qed
  with a show False by (auto simp: decimal_def js_def split: if_splits)
qed

text \<open>
  The fallback id \<^verbatim>\<open>sess_<now>_<random>\<close> determines the clock value and the random
  text: the decimal clock value contains no underscore.
\<close>

lemma split_at_unit:
  "u \<notin> set x \<Longrightarrow> u \<notin> set y \<Longrightarrow> x @ u # r = y @ u # r' \<Longrightarrow> x = y \<and> r = r'"
proof (induction x arbitrary: y)
  case Nil
  then show ?case by (cases y) auto
next
  case (Cons a x)
  then show ?case by (cases y) auto
qed

lemma fallback_id_inj:
  "randomUUID d = None \<Longrightarrow> randomUUID d' = None \<Longrightarrow> new_session_id d = new_session_id d' \<Longrightarrow>
   date_now d = date_now d' \<and> drop 2 (random_hex d) = drop 2 (random_hex d')"
proof -
  assume "randomUUID d = None" "randomUUID d' = None" "new_session_id d = new_session_id d'"
  then have "decimal (date_now d) @ 0x5F # drop 2 (random_hex d)
           = decimal (date_now d') @ 0x5F # drop 2 (random_hex d')"
    by (simp add: new_session_id_def js_def)
  then have "decimal (date_now d) = decimal (date_now d') \<and>
      drop 2 (random_hex d) = drop 2 (random_hex d')"
    by (rule split_at_unit[OF decimal_no_underscore decimal_no_underscore])
  then show ?thesis using decimal_inj[of "date_now d" "date_now d'"] by simp
qed

lemma openChatModal_known:
  "find (\<lambda>t. tenant_id t = tenantId) tenants \<noteq> None \<Longrightarrow>
   chatSessionId (openChatModal tenants d tenantId st) = Some (new_session_id d)"
  by (auto simp: openChatModal_def split: option.splits)


lemma openings_known:
  "\<forall>x \<in> set opens. find (\<lambda>t. tenant_id t = fst x) tenants \<noteq> None \<Longrightarrow>
   openings tenants st opens = map (\<lambda>x. Some (new_session_id (snd x))) opens"
  by (induction opens arbitrary: st) (auto simp: Let_def openChatModal_known)

text \<open>
  Claim C9, as the code has it. Opening the chat for a tenant of the loaded list sets the
  session id to the value newly generated for that call, whatever the id was before. Over
  any run of such openings the session ids are pairwise distinct provided the platform's
  generator does not repeat itself: the UUIDs are pairwise distinct where
  \<^verbatim>\<open>crypto.randomUUID\<close> exists, the pairs of clock value and random text are pairwise
  distinct where it does not. The code keeps no record of earlier ids.
\<close>

theorem session_ids_distinct_when_generator_is:
  "(find (\<lambda>t. tenant_id t = tenantId) tenants \<noteq> None \<longrightarrow>
      chatSessionId (openChatModal tenants d tenantId st) = Some (new_session_id d)) \<and>
   ((\<forall>x \<in> set opens. find (\<lambda>t. tenant_id t = fst x) tenants \<noteq> None) \<and>
    ((\<forall>x \<in> set opens. randomUUID (snd x) \<noteq> None) \<and>
       distinct (map (\<lambda>x. randomUUID (snd x)) opens) \<or>
     (\<forall>x \<in> set opens. randomUUID (snd x) = None) \<and>
       distinct (map (\<lambda>x. (date_now (snd x), drop 2 (random_hex (snd x)))) opens)) \<longrightarrow>
    distinct (openings tenants st opens))"
proof (intro conjI impI)
  assume "find (\<lambda>t. tenant_id t = tenantId) tenants \<noteq> None"
  then show "chatSessionId (openChatModal tenants d tenantId st) = Some (new_session_id d)"
    by (rule openChatModal_known)
next
  assume a: "(\<forall>x \<in> set opens. find (\<lambda>t. tenant_id t = fst x) tenants \<noteq> None) \<and>
    ((\<forall>x \<in> set opens. randomUUID (snd x) \<noteq> None) \<and>
       distinct (map (\<lambda>x. randomUUID (snd x)) opens) \<or>
     (\<forall>x \<in> set opens. randomUUID (snd x) = None) \<and>
       distinct (map (\<lambda>x. (date_now (snd x), drop 2 (random_hex (snd x)))) opens))"
  then have eq: "openings tenants st opens = map (\<lambda>x. Some (new_session_id (snd x))) opens"
    using openings_known by blast
  from a consider
    (uuid) "\<forall>x \<in> set opens. randomUUID (snd x) \<noteq> None"
           "distinct (map (\<lambda>x. randomUUID (snd x)) opens)"
  | (fallback) "\<forall>x \<in> set opens. randomUUID (snd x) = None"
           "distinct (map (\<lambda>x. (date_now (snd x), drop 2 (random_hex (snd x)))) opens)"
    by blast
  then show "distinct (openings tenants st opens)"
  proof cases
    case uuid
    have "inj_on (\<lambda>x. Some (new_session_id (snd x))) (set opens) \<and> distinct opens"
      using uuid by (auto simp: distinct_map inj_on_def new_session_id_def split: option.splits)
    then show ?thesis by (simp add: eq distinct_map)
  next
    case fallback
    have "inj_on (\<lambda>x. Some (new_session_id (snd x))) (set opens)"
    proof (rule inj_onI)
      fix p q assume p: "p \<in> set opens" and q: "q \<in> set opens"
        and e: "Some (new_session_id (snd p)) = Some (new_session_id (snd q))"
      then have "date_now (snd p) = date_now (snd q) \<and>
         drop 2 (random_hex (snd p)) = drop 2 (random_hex (snd q))"
        using fallback(1) fallback_id_inj by auto
      then show "p = q" using fallback(2) p q by (auto simp: distinct_map inj_on_def)
    qed
    moreover have "distinct opens" using fallback(2) by (simp add: distinct_map)
    ultimately show ?thesis by (simp add: eq distinct_map)
  qed
qed


text \<open>
  Two openings within the same millisecond whose random texts differ.
\<close>

lemma decimal_example: "decimal 1700000000000 = js ''1700000000000''"
  by (simp add: decimal_def decimal_nat.simps digit_unit_def js_def)

theorem session_ids_distinct_when_generator_is_witness:
  "distinct (openings
     [\<lparr> tenant_id = js ''t1'', tenant_name = js ''Acme'' \<rparr>]
     \<lparr> chatActiveTenantId = None, chatSessionId = None, chat_modal_hidden = True,
       chat_modal_title = [], chat_history = [] \<rparr>
     [(js ''t1'', \<lparr> randomUUID = None, date_now = 1700000000000, random_hex = js ''0.8a3f'' \<rparr>),
      (js ''t1'', \<lparr> randomUUID = None, date_now = 1700000000000, random_hex = js ''0.8a40'' \<rparr>)])"
  (is "distinct (openings ?tenants ?st ?opens)")
proof -
  have known: "\<forall>x \<in> set ?opens. find (\<lambda>t. tenant_id t = fst x) ?tenants \<noteq> None"
    by simp
  have fallback: "(\<forall>x \<in> set ?opens. randomUUID (snd x) = None) \<and>
      distinct (map (\<lambda>x. (date_now (snd x), drop 2 (random_hex (snd x)))) ?opens)"
    by (simp add: js_def)
  show ?thesis
    using session_ids_distinct_when_generator_is[of "js ''t1''" ?tenants undefined ?st ?opens]
      known fallback by blast
qed

text \<open>
  Claim C9 as stated (a session id is never the id of an earlier opening) fails when the
  generator repeats: two openings with the same clock value and the same random number
  get the same id.
\<close>

theorem session_id_repeats_with_generator_counterexample:
  "openings
     [\<lparr> tenant_id = js ''t1'', tenant_name = js ''Acme'' \<rparr>]
     \<lparr> chatActiveTenantId = None, chatSessionId = None, chat_modal_hidden = True,
       chat_modal_title = [], chat_history = [] \<rparr>
     [(js ''t1'', \<lparr> randomUUID = None, date_now = 1700000000000, random_hex = js ''0.8a3f'' \<rparr>),
      (js ''t1'', \<lparr> randomUUID = None, date_now = 1700000000000, random_hex = js ''0.8a3f'' \<rparr>)]
   = [Some (js ''sess_1700000000000_8a3f''), Some (js ''sess_1700000000000_8a3f'')]"
  by (simp add: openChatModal_def new_session_id_def Let_def decimal_example) (simp add: js_def)

end
